theory Spec2Isabelle
  imports Complex_Main "HOL-Library.Sublist" "HOL-Library.Multiset"
begin

section \<open>The gallery tree (src/types/index.ts)\<close>

text \<open>
  \<^verbatim>\<open>MediaItem.type\<close> ranges over \<^verbatim>\<open>MediaType.PHOTO | MediaType.VIDEO\<close>; the third
  tag of the enum, \<^verbatim>\<open>MediaType.FOLDER\<close>, is the constructor \<open>Folder\<close> of the sum type
  below, so that the test \<^verbatim>\<open>item.type === MediaType.FOLDER\<close> is a test on the constructor.
\<close>

datatype MediaKind = PHOTO | VIDEO

datatype SelectionType = NONE | OFF_SHEET | FRAME | FAMILY | GROOM_FAMILY | BRIDE_FAMILY

text \<open>
  A JavaScript number: not-a-number, a finite value, or an infinity. Finite values are
  exact rationals: the rounding of IEEE doubles, overflow to infinity and the sign of zero
  are left out of the model.
\<close>

datatype number = NaN | Num rat | PosInf | NegInf

text \<open>
  Optional fields (\<^verbatim>\<open>description?\<close>, \<^verbatim>\<open>isDeleted?\<close>, \<^verbatim>\<open>selection?\<close>) and the nullable
  \<^verbatim>\<open>comment\<close> are options. Strings are \<open>string\<close>, one character for one code unit;
  the examples stay within ASCII. The field \<^verbatim>\<open>id\<close> is \<open>id'\<close> and \<^verbatim>\<open>type\<close> is
  \<open>type'\<close>.
\<close>

record MediaItem =
  id' :: string
  type' :: MediaKind
  url :: string
  title :: string
  width :: number
  height :: number
  description :: "string option"
  likedBy :: "string list"
  comment :: "string option"
  date :: string
  fileSize :: string
  isDeleted :: "bool option"
  selection :: "SelectionType option"

datatype GalleryContentItem =
    Media (asMediaItem: MediaItem)
  | Folder (folderId: string) (name: string) (children: "GalleryContentItem list")
      (folderIsDeleted: "bool option")

text \<open>The fields that both variants have: \<^verbatim>\<open>item.id\<close> and \<^verbatim>\<open>item.isDeleted\<close>.\<close>

fun itemId :: "GalleryContentItem \<Rightarrow> string" where
  "itemId (Media m) = id' m"
| "itemId (Folder i n ch d) = i"

fun itemIsDeleted :: "GalleryContentItem \<Rightarrow> bool option" where
  "itemIsDeleted (Media m) = isDeleted m"
| "itemIsDeleted (Folder i n ch d) = d"

fun isFolder :: "GalleryContentItem \<Rightarrow> bool" where
  "isFolder (Media m) = False"
| "isFolder (Folder i n ch d) = True"

text \<open>JavaScript truthiness of an optional boolean: \<^verbatim>\<open>undefined\<close> is falsy.\<close>

fun truthy :: "bool option \<Rightarrow> bool" where
  "truthy None = False"
| "truthy (Some b) = b"

section \<open>Flattening (allMediaItems, part_000 lines 759-772)\<close>

text \<open>
  The loop pushes each item and, for a folder, appends the flattening of its children
  before going on to the next sibling.
\<close>

fun flatten :: "GalleryContentItem list \<Rightarrow> GalleryContentItem list" where
  "flatten [] = []"
| "flatten (Media m # rest) = Media m # flatten rest"
| "flatten (Folder i n ch d # rest) = Folder i n ch d # (flatten ch @ flatten rest)"



section \<open>Mutating one media item (findAndMutateMediaItem, part_000 lines 189-199)\<close>

text \<open>
  \<^verbatim>\<open>items.map\<close> over the listing: a folder is rebuilt with its children rewritten, whatever
  its id; only then is the id of a (non-folder) item compared with \<^verbatim>\<open>mediaId\<close>. The
  mutation has the type \<^verbatim>\<open>(item: MediaItem) => MediaItem\<close>.
\<close>

fun findAndMutateMediaItem ::
  "GalleryContentItem list \<Rightarrow> string \<Rightarrow> (MediaItem \<Rightarrow> MediaItem) \<Rightarrow> GalleryContentItem list" where
  "findAndMutateMediaItem [] mediaId mutation = []"
| "findAndMutateMediaItem (Folder i n ch d # rest) mediaId mutation =
     Folder i n (findAndMutateMediaItem ch mediaId mutation) d
       # findAndMutateMediaItem rest mediaId mutation"
| "findAndMutateMediaItem (Media m # rest) mediaId mutation =
     (if id' m = mediaId then Media (mutation m) else Media m)
       # findAndMutateMediaItem rest mediaId mutation"

section \<open>Resolving a path (getItemsForPath, part_000 lines 202-221)\<close>

record Crumb =
  crumbId :: string
  crumbName :: string

record PathResult =
  items :: "GalleryContentItem list"
  breadcrumbs :: "Crumb list"
  currentFolder :: "GalleryContentItem option"

definition homeCrumb :: Crumb where
  "homeCrumb = \<lparr>crumbId = ''root'', crumbName = ''Home''\<rparr>"

definition notDeleted :: "GalleryContentItem \<Rightarrow> bool" where
  "notDeleted item = (\<not> truthy (itemIsDeleted item))"

text \<open>
  The \<^verbatim>\<open>for\<close> loop over the path, with the loop variables \<^verbatim>\<open>currentItems\<close>,
  \<^verbatim>\<open>breadcrumbs\<close> and \<^verbatim>\<open>currentFolder\<close> as arguments. \<^verbatim>\<open>find\<close> returns the first item
  that has the id and is a folder; when there is none the loop returns the root listing.
\<close>

fun walkPath ::
  "GalleryContentItem list \<Rightarrow> GalleryContentItem list \<Rightarrow> Crumb list \<Rightarrow>
   GalleryContentItem option \<Rightarrow> string list \<Rightarrow> PathResult" where
  "walkPath rootItems currentItems crumbs cur [] =
     \<lparr>items = filter notDeleted currentItems, breadcrumbs = crumbs, currentFolder = cur\<rparr>"
| "walkPath rootItems currentItems crumbs cur (fid # path) =
     (case find (\<lambda>item. itemId item = fid \<and> isFolder item) currentItems of
        Some (Folder i n ch d) \<Rightarrow>
          walkPath rootItems ch (crumbs @ [\<lparr>crumbId = i, crumbName = n\<rparr>])
            (Some (Folder i n ch d)) path
      | _ \<Rightarrow>
          \<lparr>items = filter notDeleted rootItems, breadcrumbs = [homeCrumb],
           currentFolder = None\<rparr>)"

text \<open>The argument is an option for the guard \<^verbatim>\<open>if (!rootItems)\<close> on a missing tree.\<close>

fun getItemsForPath :: "GalleryContentItem list option \<Rightarrow> string list \<Rightarrow> PathResult" where
  "getItemsForPath None path = \<lparr>items = [], breadcrumbs = [], currentFolder = None\<rparr>"
| "getItemsForPath (Some rootItems) path = walkPath rootItems rootItems [homeCrumb] None path"

text \<open>
  A path fails to resolve when, at some step, the current listing has no folder with the
  next id: the id is not there at all, or only a media item has it.
\<close>

fun pathFails :: "GalleryContentItem list \<Rightarrow> string list \<Rightarrow> bool" where
  "pathFails currentItems [] = False"
| "pathFails currentItems (fid # path) =
     (case find (\<lambda>item. itemId item = fid \<and> isFolder item) currentItems of
        None \<Rightarrow> True
      | Some item \<Rightarrow> pathFails (children item) path)"

section \<open>Numbers and strings of the JavaScript library\<close>

text \<open>
  \<^verbatim>\<open>a * b\<close> and \<^verbatim>\<open>a - b\<close> on numbers, and the test \<^verbatim>\<open>v > 0\<close>. An infinity times
  zero and the difference of equal infinities are not-a-number.
\<close>

fun times_num :: "number \<Rightarrow> number \<Rightarrow> number" where
  "times_num (Num a) (Num b) = Num (a * b)"
| "times_num NaN y = NaN"
| "times_num x NaN = NaN"
| "times_num (Num a) PosInf = (if a = 0 then NaN else if 0 < a then PosInf else NegInf)"
| "times_num (Num a) NegInf = (if a = 0 then NaN else if 0 < a then NegInf else PosInf)"
| "times_num PosInf (Num b) = (if b = 0 then NaN else if 0 < b then PosInf else NegInf)"
| "times_num NegInf (Num b) = (if b = 0 then NaN else if 0 < b then NegInf else PosInf)"
| "times_num PosInf PosInf = PosInf"
| "times_num PosInf NegInf = NegInf"
| "times_num NegInf PosInf = NegInf"
| "times_num NegInf NegInf = PosInf"

fun minus_num :: "number \<Rightarrow> number \<Rightarrow> number" where
  "minus_num (Num a) (Num b) = Num (a - b)"
| "minus_num NaN y = NaN"
| "minus_num x NaN = NaN"
| "minus_num (Num a) PosInf = NegInf"
| "minus_num (Num a) NegInf = PosInf"
| "minus_num PosInf (Num b) = PosInf"
| "minus_num NegInf (Num b) = NegInf"
| "minus_num PosInf PosInf = NaN"
| "minus_num PosInf NegInf = PosInf"
| "minus_num NegInf PosInf = NegInf"
| "minus_num NegInf NegInf = NaN"

fun positive :: "number \<Rightarrow> bool" where
  "positive (Num a) = (0 < a)"
| "positive PosInf = True"
| "positive NegInf = False"
| "positive NaN = False"

text \<open>\<^verbatim>\<open>v || 0\<close> on a number: not-a-number and zero are falsy.\<close>

fun orZero :: "number \<Rightarrow> number" where
  "orZero NaN = Num 0"
| "orZero v = v"

text \<open>
  \<^verbatim>\<open>s.split(' ')\<close>: the pieces between single spaces; the empty string gives one empty
  piece, and two spaces in a row give an empty piece between them.
\<close>

fun split :: "char \<Rightarrow> string \<Rightarrow> string list" where
  "split sep [] = [Nil]"
| "split sep (c # cs) =
     (if c = sep then Nil # split sep cs
      else (case split sep cs of p # ps \<Rightarrow> (c # p) # ps | Nil \<Rightarrow> [c # Nil]))"

text \<open>
  \<^verbatim>\<open>s.toUpperCase()\<close> on the letters a to z; every other character of the 8-bit
  alphabet of \<open>string\<close> is left as it is.
\<close>

definition upperChar :: "char \<Rightarrow> char" where
  "upperChar c =
     (case map_of (zip ''abcdefghijklmnopqrstuvwxyz'' ''ABCDEFGHIJKLMNOPQRSTUVWXYZ'') c of
        Some u \<Rightarrow> u
      | None \<Rightarrow> c)"

definition toUpperCase :: "string \<Rightarrow> string" where
  "toUpperCase s = map upperChar s"

text \<open>
  \<^verbatim>\<open>parseFloat\<close>: leading white space is skipped, then the longest prefix that is a decimal
  literal is read: an optional sign, then \<^verbatim>\<open>Infinity\<close> or digits with an optional
  fraction and an optional exponent. At least one digit is needed before the exponent;
  an exponent without digits is not read. Anything after the literal is ignored, and
  without a literal the result is not-a-number.
\<close>

definition isDigit :: "char \<Rightarrow> bool" where
  "isDigit c = (c \<in> set ''0123456789'')"

definition isWhiteSpace :: "char \<Rightarrow> bool" where
  "isWhiteSpace c = (c \<in> {CHR 0x09, CHR 0x0A, CHR 0x0B, CHR 0x0C, CHR 0x0D, CHR 0x20, CHR 0xA0})"

definition digitsValue :: "string \<Rightarrow> nat" where
  "digitsValue ds = foldl (\<lambda>acc c. 10 * acc + (of_char c - 48)) 0 ds"

fun signOf :: "string \<Rightarrow> bool \<times> string" where
  "signOf (c # cs) =
     (if c = CHR ''-'' then (True, cs) else if c = CHR ''+'' then (False, cs)
      else (False, c # cs))"
| "signOf [] = (False, [])"

fun exponentOf :: "string \<Rightarrow> int" where
  "exponentOf (c # cs) =
     (if c = CHR ''e'' \<or> c = CHR ''E'' then
        (let (neg, r) = signOf cs; ds = takeWhile isDigit r
         in if ds = [] then 0
            else if neg then - int (digitsValue ds) else int (digitsValue ds))
      else 0)"
| "exponentOf [] = 0"

definition scale10 :: "rat \<Rightarrow> int \<Rightarrow> rat" where
  "scale10 v e = (if 0 \<le> e then v * 10 ^ nat e else v / 10 ^ nat (- e))"

definition parseFloat :: "string \<Rightarrow> number" where
  "parseFloat s =
     (let (neg, r) = signOf (dropWhile isWhiteSpace s) in
      if prefix ''Infinity'' r then (if neg then NegInf else PosInf)
      else
        (let ip = takeWhile isDigit r;
             r1 = dropWhile isDigit r;
             fp = (case r1 of c # cs \<Rightarrow> if c = CHR ''.'' then takeWhile isDigit cs else []
                   | [] \<Rightarrow> []);
             r2 = (case r1 of c # cs \<Rightarrow> if c = CHR ''.'' then dropWhile isDigit cs else r1
                   | [] \<Rightarrow> [])
         in if ip = [] \<and> fp = [] then NaN
            else
              (let mant = of_nat (digitsValue (ip @ fp)) / 10 ^ length fp;
                   v = scale10 mant (exponentOf r2)
               in Num (if neg then - v else v))))"

section \<open>Parsing a file size (parseFileSize, part_000 lines 224-242)\<close>

definition parseFileSize :: "string \<Rightarrow> number" where
  "parseFileSize sizeStr =
     (if sizeStr = [] then Num 0
      else
        (let parts = split CHR '' '' sizeStr in
         if length parts < 2 then orZero (parseFloat sizeStr)
         else
           (let v = parseFloat (parts ! 0);
                unit = toUpperCase (parts ! 1)
            in if v = NaN then Num 0
               else if unit = ''KB'' then times_num v (Num 1024)
               else if unit = ''MB'' then times_num (times_num v (Num 1024)) (Num 1024)
               else if unit = ''GB'' then
                 times_num (times_num (times_num v (Num 1024)) (Num 1024)) (Num 1024)
               else if unit = ''TB'' then
                 times_num (times_num (times_num (times_num v (Num 1024)) (Num 1024))
                   (Num 1024)) (Num 1024)
               else v)))"

text \<open>
  The power of 1024 that a unit stands for: KB 1, MB 2, GB 3, TB 4; B and every other text
  stand for the number as it is.
\<close>

definition unitExponent :: "string \<Rightarrow> nat" where
  "unitExponent unit =
     (if unit = ''KB'' then 1 else if unit = ''MB'' then 2 else if unit = ''GB'' then 3
      else if unit = ''TB'' then 4 else 0)"

section \<open>The listing pipeline (processedItems, part_000 lines 792-920)\<close>

datatype SortOption = DateDesc | DateAsc | NameAsc | NameDesc | SizeDesc | SizeAsc

datatype FilterOption =
  FilterAll | FilterPhotos | FilterVideos | FilterFolders | FilterLiked | FilterCommented

datatype SpecialView = ViewNone | ViewLiked | ViewCommented | ViewDeleted

text \<open>
  \<^verbatim>\<open>Array.prototype.sort\<close> with a comparator is the library's stable sort: it orders by
  the sign of the comparator's result, not-a-number counting as zero, and keeps the input
  order of items that compare as equal. The model is a stable insertion sort: each item,
  from the last to the first, is put in front of the first item of the sorted rest that
  it does not compare greater than. For a comparator that is a consistent ordering this is
  the list every conforming sort returns; for any other comparator the language leaves
  the order to the implementation, and the model fixes the order of the insertion sort.
\<close>

fun insertBy :: "('a \<Rightarrow> 'a \<Rightarrow> number) \<Rightarrow> 'a \<Rightarrow> 'a list \<Rightarrow> 'a list" where
  "insertBy cmp x [] = [x]"
| "insertBy cmp x (y # ys) =
     (if positive (cmp x y) then y # insertBy cmp x ys else x # y # ys)"

definition sortBy :: "('a \<Rightarrow> 'a \<Rightarrow> number) \<Rightarrow> 'a list \<Rightarrow> 'a list" where
  "sortBy cmp xs = foldr (insertBy cmp) xs []"

text \<open>
  \<^verbatim>\<open>s.trim()\<close>, \<^verbatim>\<open>s.toLowerCase()\<close> (on the letters A to Z) and \<^verbatim>\<open>s.includes(q)\<close>.
\<close>

definition trim :: "string \<Rightarrow> string" where
  "trim s = rev (dropWhile isWhiteSpace (rev (dropWhile isWhiteSpace s)))"

definition lowerChar :: "char \<Rightarrow> char" where
  "lowerChar c =
     (case map_of (zip ''ABCDEFGHIJKLMNOPQRSTUVWXYZ'' ''abcdefghijklmnopqrstuvwxyz'') c of
        Some l \<Rightarrow> l
      | None \<Rightarrow> c)"

definition toLowerCase :: "string \<Rightarrow> string" where
  "toLowerCase s = map lowerChar s"

fun includesStr :: "string \<Rightarrow> string \<Rightarrow> bool" where
  "includesStr [] q = (q = [])"
| "includesStr (c # cs) q = (prefix q (c # cs) \<or> includesStr cs q)"

text \<open>\<^verbatim>\<open>!!item.comment?.trim()\<close>: there is a comment and it is not blank.\<close>

definition hasComment :: "MediaItem \<Rightarrow> bool" where
  "hasComment m = (case comment m of None \<Rightarrow> False | Some c \<Rightarrow> trim c \<noteq> [])"

text \<open>Stage 1: the source of the listing, by the special view.\<close>

definition sourceItems ::
  "string \<Rightarrow> SpecialView \<Rightarrow> GalleryContentItem list \<Rightarrow> GalleryContentItem list \<Rightarrow>
   GalleryContentItem list" where
  "sourceItems userId specialView currentItems allMediaItems =
     (case specialView of
        ViewLiked \<Rightarrow>
          filter (\<lambda>item. \<not> isFolder item \<and> userId \<in> set (likedBy (asMediaItem item))
                    \<and> \<not> truthy (itemIsDeleted item)) allMediaItems
      | ViewCommented \<Rightarrow>
          filter (\<lambda>item. \<not> isFolder item \<and> hasComment (asMediaItem item)
                    \<and> \<not> truthy (itemIsDeleted item)) allMediaItems
      | ViewDeleted \<Rightarrow> filter (\<lambda>item. truthy (itemIsDeleted item)) allMediaItems
      | ViewNone \<Rightarrow> currentItems)"

text \<open>
  Stage 2: the filter. Under a date sort, and under every filter other than
  \<^verbatim>\<open>all\<close> and \<^verbatim>\<open>folders\<close>, folders are dropped first.
\<close>

definition isDateSort :: "SortOption \<Rightarrow> bool" where
  "isDateSort sortOption = (sortOption = DateDesc \<or> sortOption = DateAsc)"

definition keepItem :: "string \<Rightarrow> FilterOption \<Rightarrow> SortOption \<Rightarrow> GalleryContentItem \<Rightarrow> bool" where
  "keepItem userId filterOption sortOption item =
     (let isFolderSort = isDateSort sortOption;
          isSpecialFilter = (filterOption \<notin> {FilterAll, FilterFolders})
      in if isFolderSort \<and> isFolder item then False
         else if isSpecialFilter \<and> isFolder item then False
         else (case filterOption of
                 FilterAll \<Rightarrow> True
               | FilterPhotos \<Rightarrow> \<not> isFolder item \<and> type' (asMediaItem item) = PHOTO
               | FilterVideos \<Rightarrow> \<not> isFolder item \<and> type' (asMediaItem item) = VIDEO
               | FilterFolders \<Rightarrow> isFolder item
               | FilterLiked \<Rightarrow>
                   (if isFolder item then False
                    else userId \<in> set (likedBy (asMediaItem item)))
               | FilterCommented \<Rightarrow>
                   (if isFolder item then False else hasComment (asMediaItem item))))"

text \<open>Stage 3: the search, skipped when the query is blank.\<close>

definition matchesQuery ::
  "SpecialView \<Rightarrow> FilterOption \<Rightarrow> string \<Rightarrow> GalleryContentItem \<Rightarrow> bool" where
  "matchesQuery specialView filterOption lowercasedQuery item =
     (case item of
        Folder i n ch d \<Rightarrow> includesStr (toLowerCase n) lowercasedQuery
      | Media m \<Rightarrow>
          (let isCommentFiltered =
                 (specialView = ViewCommented \<or> filterOption = FilterCommented);
               titleMatch = includesStr (toLowerCase (title m)) lowercasedQuery
           in if isCommentFiltered then
                titleMatch \<or>
                (case comment m of None \<Rightarrow> False
                 | Some c \<Rightarrow> includesStr (toLowerCase c) lowercasedQuery)
              else titleMatch))"

definition searchedItems ::
  "SpecialView \<Rightarrow> FilterOption \<Rightarrow> string \<Rightarrow> GalleryContentItem list \<Rightarrow>
   GalleryContentItem list" where
  "searchedItems specialView filterOption searchQuery filteredItems =
     (if trim searchQuery \<noteq> [] then
        filter (matchesQuery specialView filterOption (toLowerCase searchQuery)) filteredItems
      else filteredItems)"

text \<open>
  Stage 4: the sort switch. \<open>lc a b\<close> stands for \<^verbatim>\<open>a.localeCompare(b)\<close>, the collation
  of the host's locale, and \<open>getTime s\<close> for \<^verbatim>\<open>new Date(s).getTime()\<close>; both are
  parameters. In each branch the comparator first puts a folder before a non-folder;
  \<open>displayName\<close> is the \<^verbatim>\<open>name\<close> of a folder and the \<^verbatim>\<open>title\<close> of a media item.
\<close>

fun displayName :: "GalleryContentItem \<Rightarrow> string" where
  "displayName (Folder i n ch d) = n"
| "displayName (Media m) = title m"

definition sortStage ::
  "(string \<Rightarrow> string \<Rightarrow> number) \<Rightarrow> (string \<Rightarrow> number) \<Rightarrow> SortOption \<Rightarrow>
   GalleryContentItem list \<Rightarrow> GalleryContentItem list" where
  "sortStage lc getTime sortOption xs =
     (case sortOption of
        NameAsc \<Rightarrow>
          sortBy (\<lambda>a b.
            if isFolder a \<and> \<not> isFolder b then Num (- 1)
            else if \<not> isFolder a \<and> isFolder b then Num 1
            else lc (displayName a) (displayName b)) xs
      | NameDesc \<Rightarrow>
          sortBy (\<lambda>a b.
            if isFolder a \<and> \<not> isFolder b then Num (- 1)
            else if \<not> isFolder a \<and> isFolder b then Num 1
            else lc (displayName b) (displayName a)) xs
      | DateAsc \<Rightarrow>
          sortBy (\<lambda>a b.
            if isFolder a \<and> \<not> isFolder b then Num (- 1)
            else if \<not> isFolder a \<and> isFolder b then Num 1
            else if isFolder a then lc (name a) (name b)
            else minus_num (getTime (date (asMediaItem a))) (getTime (date (asMediaItem b)))) xs
      | SizeDesc \<Rightarrow>
          sortBy (\<lambda>a b.
            if isFolder a \<and> \<not> isFolder b then Num (- 1)
            else if \<not> isFolder a \<and> isFolder b then Num 1
            else if isFolder a then lc (name a) (name b)
            else minus_num (parseFileSize (fileSize (asMediaItem b)))
                   (parseFileSize (fileSize (asMediaItem a)))) xs
      | SizeAsc \<Rightarrow>
          sortBy (\<lambda>a b.
            if isFolder a \<and> \<not> isFolder b then Num (- 1)
            else if \<not> isFolder a \<and> isFolder b then Num 1
            else if isFolder a then lc (name a) (name b)
            else minus_num (parseFileSize (fileSize (asMediaItem a)))
                   (parseFileSize (fileSize (asMediaItem b)))) xs
      | DateDesc \<Rightarrow>
          sortBy (\<lambda>a b.
            if isFolder a \<and> \<not> isFolder b then Num (- 1)
            else if \<not> isFolder a \<and> isFolder b then Num 1
            else if isFolder a then lc (name a) (name b)
            else minus_num (getTime (date (asMediaItem b))) (getTime (date (asMediaItem a)))) xs)"

definition processedItems ::
  "(string \<Rightarrow> string \<Rightarrow> number) \<Rightarrow> (string \<Rightarrow> number) \<Rightarrow> string \<Rightarrow> SpecialView \<Rightarrow>
   FilterOption \<Rightarrow> string \<Rightarrow> SortOption \<Rightarrow> GalleryContentItem list \<Rightarrow>
   GalleryContentItem list \<Rightarrow> GalleryContentItem list" where
  "processedItems lc getTime userId specialView filterOption searchQuery sortOption
     currentItems allMediaItems =
     sortStage lc getTime sortOption
       (searchedItems specialView filterOption searchQuery
          (filter (keepItem userId filterOption sortOption)
             (sourceItems userId specialView currentItems allMediaItems)))"

section \<open>Soft delete and restore (modifyItemsDeletedState, part_000 lines 1140-1159)\<close>

text \<open>
  \<^verbatim>\<open>items.map\<close>: an item whose id is selected gets the flag and is returned at once,
  with its children as they were; only a folder that is not selected is rebuilt from its
  rewritten children.
\<close>

fun modifyRecursively ::
  "string set \<Rightarrow> bool \<Rightarrow> GalleryContentItem list \<Rightarrow> GalleryContentItem list" where
  "modifyRecursively idsToModify flag [] = []"
| "modifyRecursively idsToModify flag (Media m # rest) =
     (if id' m \<in> idsToModify then Media (m\<lparr>isDeleted := Some flag\<rparr>) else Media m)
       # modifyRecursively idsToModify flag rest"
| "modifyRecursively idsToModify flag (Folder i n ch d # rest) =
     (if i \<in> idsToModify then Folder i n ch (Some flag)
      else Folder i n (modifyRecursively idsToModify flag ch) d)
       # modifyRecursively idsToModify flag rest"

section \<open>Moving items (handleConfirmMove, part_000 lines 1317-1365)\<close>

text \<open>
  \<^verbatim>\<open>findAndRemove\<close> pushes every selected item it meets onto the shared array
  \<^verbatim>\<open>itemsToMove\<close> and returns the kept items; the array is threaded through as an
  argument and returned with the result. A selected folder is pushed whole and not
  looked into.
\<close>

fun findAndRemove ::
  "string set \<Rightarrow> GalleryContentItem list \<Rightarrow> GalleryContentItem list \<Rightarrow>
   GalleryContentItem list \<times> GalleryContentItem list" where
  "findAndRemove idsToMove [] itemsToMove = ([], itemsToMove)"
| "findAndRemove idsToMove (Media m # rest) itemsToMove =
     (if id' m \<in> idsToMove then findAndRemove idsToMove rest (itemsToMove @ [Media m])
      else (let (keptItems, moved) = findAndRemove idsToMove rest itemsToMove
            in (Media m # keptItems, moved)))"
| "findAndRemove idsToMove (Folder i n ch d # rest) itemsToMove =
     (if i \<in> idsToMove then findAndRemove idsToMove rest (itemsToMove @ [Folder i n ch d])
      else (let (newChildren, moved1) = findAndRemove idsToMove ch itemsToMove;
                (keptItems, moved2) = findAndRemove idsToMove rest moved1
            in (Folder i n newChildren d # keptItems, moved2)))"

text \<open>
  \<^verbatim>\<open>findAndAdd\<close>: for the destination \<^verbatim>\<open>'root'\<close> the moved items are appended to the
  listing; otherwise every folder with the destination's id gets them appended to its
  children, and every other folder is searched.
\<close>

fun findAndAdd ::
  "string \<Rightarrow> GalleryContentItem list \<Rightarrow> GalleryContentItem list \<Rightarrow> GalleryContentItem list" where
  "findAndAdd destinationFolderId itemsToMove xs =
     (if destinationFolderId = ''root'' then xs @ itemsToMove
      else map (\<lambda>item.
             case item of
               Folder i n ch d \<Rightarrow>
                 if i = destinationFolderId then Folder i n (ch @ itemsToMove) d
                 else Folder i n (findAndAdd destinationFolderId itemsToMove ch) d
             | Media m \<Rightarrow> item) xs)"

text \<open>The equation of \<open>findAndAdd\<close> is unfolded by hand, one level at a time.\<close>

declare findAndAdd.simps [simp del]

definition moveItems ::
  "GalleryContentItem list \<Rightarrow> string set \<Rightarrow> string \<Rightarrow> GalleryContentItem list" where
  "moveItems galleryContent idsToMove destinationFolderId =
     (let (contentAfterRemoval, itemsToMove) = findAndRemove idsToMove galleryContent []
      in findAndAdd destinationFolderId itemsToMove contentAfterRemoval)"

text \<open>
  The handler's guard: without a gallery or without a destination nothing changes. The
  result is the new value of the state variable \<^verbatim>\<open>galleryContent\<close>.
\<close>

fun handleConfirmMove ::
  "GalleryContentItem list option \<Rightarrow> string set \<Rightarrow> string option \<Rightarrow>
   GalleryContentItem list option" where
  "handleConfirmMove None selectedIds dest = None"
| "handleConfirmMove (Some galleryContent) selectedIds None = Some galleryContent"
| "handleConfirmMove (Some galleryContent) selectedIds (Some destinationFolderId) =
     Some (moveItems galleryContent selectedIds destinationFolderId)"

section \<open>Login (part_002)\<close>

record User =
  userId :: string
  username :: string
  password :: string
  userName :: string
  profileImageUrl :: "string option"

record ClientData =
  user :: User
  gallery :: "GalleryContentItem list"

text \<open>
  The table \<^verbatim>\<open>MOCK_CLIENT_DATA\<close> is a parameter. The result is the value the promise
  settles with once the timer has fired: \<open>Inr\<close> the user it resolves with, \<open>Inl\<close> the
  message of the error it rejects with.
\<close>

definition login :: "ClientData list \<Rightarrow> string \<Rightarrow> string \<Rightarrow> string + User" where
  "login MOCK_CLIENT_DATA uname pword =
     (case find (\<lambda>client. username (user client) = uname \<and> password (user client) = pword)
             MOCK_CLIENT_DATA of
        Some clientData \<Rightarrow> Inr (user clientData)
      | None \<Rightarrow> Inl ''Invalid username or password.'')"

section \<open>Mutation by id as the specification words it\<close>

text \<open>
  mutateById as the specification words it: the node with the given id, folder or media
  item, is replaced by the transform applied to it, and every other node is copied. It is
  here to be compared with \<open>findAndMutateMediaItem\<close>.
\<close>

fun mutateById_spec ::
  "GalleryContentItem list \<Rightarrow> string \<Rightarrow> (GalleryContentItem \<Rightarrow> GalleryContentItem) \<Rightarrow>
   GalleryContentItem list" where
  "mutateById_spec [] targetId transform = []"
| "mutateById_spec (Media m # rest) targetId transform =
     (if id' m = targetId then transform (Media m) else Media m)
       # mutateById_spec rest targetId transform"
| "mutateById_spec (Folder i n ch d # rest) targetId transform =
     (if i = targetId then transform (Folder i n ch d)
      else Folder i n (mutateById_spec ch targetId transform) d)
       # mutateById_spec rest targetId transform"

text \<open>
  A transform of media items seen as a transform of nodes, and the transform
  \<^verbatim>\<open>item => ({...item, isDeleted: true})\<close>, on a media item and on any node.
\<close>

fun onMedia :: "(MediaItem \<Rightarrow> MediaItem) \<Rightarrow> GalleryContentItem \<Rightarrow> GalleryContentItem" where
  "onMedia f (Media m) = Media (f m)"
| "onMedia f (Folder i n ch d) = Folder i n ch d"

definition markMediaDeleted :: "MediaItem \<Rightarrow> MediaItem" where
  "markMediaDeleted m = m\<lparr>isDeleted := Some True\<rparr>"

fun markDeleted :: "GalleryContentItem \<Rightarrow> GalleryContentItem" where
  "markDeleted (Media m) = Media (markMediaDeleted m)"
| "markDeleted (Folder i n ch d) = Folder i n ch (Some True)"

section \<open>Auxiliary functions for the move\<close>

text \<open>
  The two results of \<open>findAndRemove\<close> as functions of the listing alone: the tree that
  is kept and the items that are collected, in the order in which they are met.
\<close>

fun keptOf :: "string set \<Rightarrow> GalleryContentItem list \<Rightarrow> GalleryContentItem list" where
  "keptOf ids [] = []"
| "keptOf ids (Media m # rest) =
     (if id' m \<in> ids then keptOf ids rest else Media m # keptOf ids rest)"
| "keptOf ids (Folder i n ch d # rest) =
     (if i \<in> ids then keptOf ids rest else Folder i n (keptOf ids ch) d # keptOf ids rest)"

fun movedOf :: "string set \<Rightarrow> GalleryContentItem list \<Rightarrow> GalleryContentItem list" where
  "movedOf ids [] = []"
| "movedOf ids (Media m # rest) =
     (if id' m \<in> ids then Media m # movedOf ids rest else movedOf ids rest)"
| "movedOf ids (Folder i n ch d # rest) =
     (if i \<in> ids then Folder i n ch d # movedOf ids rest
      else movedOf ids ch @ movedOf ids rest)"



section \<open>Example data\<close>

text \<open>
  The tree of the scenarios: a folder Wedding with the photo P1 and a sub-folder Reception
  that holds the photo P2, and a video next to Wedding at the top level.
\<close>

definition mediaItem :: "string \<Rightarrow> MediaKind \<Rightarrow> string \<Rightarrow> string \<Rightarrow> string \<Rightarrow> MediaItem" where
  "mediaItem i k t dt sz =
     \<lparr>id' = i, type' = k, url = ''https://example.test/'' @ i, title = t,
      width = Num 1920, height = Num 1080, description = None, likedBy = [],
      comment = None, date = dt, fileSize = sz, isDeleted = None, selection = None\<rparr>"

definition photoP1 :: MediaItem where
  "photoP1 = mediaItem ''p1'' PHOTO ''Ceremony'' ''2023-10-26'' ''4.2 MB''"

definition photoP2 :: MediaItem where
  "photoP2 = mediaItem ''p2'' PHOTO ''First dance'' ''2023-10-27'' ''900 B''"

definition videoV1 :: MediaItem where
  "videoV1 = mediaItem ''v1'' VIDEO ''Highlights'' ''2023-10-28'' ''1.5 GB''"

definition receptionFolder :: GalleryContentItem where
  "receptionFolder = Folder ''f2'' ''Reception'' [Media photoP2] None"

definition weddingFolder :: GalleryContentItem where
  "weddingFolder = Folder ''f1'' ''Wedding'' [Media photoP1, receptionFolder] None"

definition exampleTree :: "GalleryContentItem list" where
  "exampleTree = [weddingFolder, Media videoV1]"

definition exampleClients :: "ClientData list" where
  "exampleClients =
     [\<lparr>user = \<lparr>userId = ''u1'', username = ''ben'', password = ''pw-ben'', userName = ''Ben'',
                profileImageUrl = None\<rparr>, gallery = []\<rparr>,
      \<lparr>user = \<lparr>userId = ''u2'', username = ''anna'', password = ''pw-anna'',
                userName = ''Anna'', profileImageUrl = None\<rparr>, gallery = exampleTree\<rparr>]"

text \<open>
  Stand-ins for the two parameters of the sort, for the examples: a comparison of strings
  code unit by code unit, which is how every locale collates the plain names used below,
  and a reading of a date written as year-month-day as the number its digits spell.
\<close>

fun codeUnitCompare :: "string \<Rightarrow> string \<Rightarrow> number" where
  "codeUnitCompare [] [] = Num 0"
| "codeUnitCompare [] (d # ds) = Num (- 1)"
| "codeUnitCompare (c # cs) [] = Num 1"
| "codeUnitCompare (c # cs) (d # ds) =
     (if (of_char c :: nat) < of_char d then Num (- 1)
      else if (of_char d :: nat) < of_char c then Num 1
      else codeUnitCompare cs ds)"

definition exampleTime :: "string \<Rightarrow> number" where
  "exampleTime s = Num (of_nat (digitsValue (filter isDigit s)))"

text \<open>
  Two folders are in ascending order of name when the collation does not put the first
  name after the second.
\<close>

definition nameAscending ::
  "(string \<Rightarrow> string \<Rightarrow> number) \<Rightarrow> GalleryContentItem \<Rightarrow> GalleryContentItem \<Rightarrow> bool" where
  "nameAscending lc a b = (\<not> positive (lc (name a) (name b)))"

definition albumA :: GalleryContentItem where
  "albumA = Folder ''fa'' ''A'' [] None"

definition albumB :: GalleryContentItem where
  "albumB = Folder ''fb'' ''B'' [] None"

definition mixedListing :: "GalleryContentItem list" where
  "mixedListing = [Media photoP1, weddingFolder, Media videoV1, receptionFolder, Media photoP2]"

lemmas example_defs =
  exampleTree_def weddingFolder_def receptionFolder_def photoP1_def photoP2_def
  videoV1_def mediaItem_def

section \<open>Properties of flatten\<close>






section \<open>Path resolution\<close>

lemma walkPath_fails:
  "pathFails cur p \<Longrightarrow>
   walkPath rootItems cur crumbs cf p =
     \<lparr>items = filter notDeleted rootItems, breadcrumbs = [homeCrumb], currentFolder = None\<rparr>"
proof (induction p arbitrary: cur crumbs cf)
  case Nil
  then show ?case by simp
next
  case (Cons fid p)
  show ?case
  proof (cases "find (\<lambda>item. itemId item = fid \<and> isFolder item) cur")
    case None
    then show ?thesis by simp
  next
    case (Some item)
    then have "isFolder item" by (auto simp: find_Some_iff)
    then obtain i n ch d where it: "item = Folder i n ch d" by (cases item) auto
    with Cons.prems Some have "pathFails ch p" by simp
    with Cons.IH Some it show ?thesis by simp
  qed
qed

text \<open>
  Claim C4. When some step of a path does not resolve (the current listing has no folder
  with the next id: the id is missing or belongs to a media item), the result is the
  top-level listing without its deleted items, the breadcrumb trail is the single entry
  with id root and name Home, and there is no current folder. So it is for the path
  \<^verbatim>\<open>["bogus-id"]\<close> in a tree without a top-level folder of that id.
\<close>

theorem getItemsForPath_fallback:
  "(pathFails T p \<longrightarrow>
      getItemsForPath (Some T) p =
        \<lparr>items = filter notDeleted T,
         breadcrumbs = [\<lparr>crumbId = ''root'', crumbName = ''Home''\<rparr>],
         currentFolder = None\<rparr>) \<and>
   ((\<forall>item \<in> set T. \<not> (itemId item = ''bogus-id'' \<and> isFolder item)) \<longrightarrow>
      getItemsForPath (Some T) [''bogus-id''] =
        \<lparr>items = filter notDeleted T,
         breadcrumbs = [\<lparr>crumbId = ''root'', crumbName = ''Home''\<rparr>],
         currentFolder = None\<rparr>)"
proof (intro conjI impI)
  assume "pathFails T p"
  then show "getItemsForPath (Some T) p =
        \<lparr>items = filter notDeleted T,
         breadcrumbs = [\<lparr>crumbId = ''root'', crumbName = ''Home''\<rparr>],
         currentFolder = None\<rparr>"
    using walkPath_fails [of T p T "[homeCrumb]" None] by (simp add: homeCrumb_def)
next
  assume a: "\<forall>item \<in> set T. \<not> (itemId item = ''bogus-id'' \<and> isFolder item)"
  then have "find (\<lambda>item. itemId item = ''bogus-id'' \<and> isFolder item) T = None"
    by (simp add: find_None_iff)
  then show "getItemsForPath (Some T) [''bogus-id''] =
        \<lparr>items = filter notDeleted T,
         breadcrumbs = [\<lparr>crumbId = ''root'', crumbName = ''Home''\<rparr>],
         currentFolder = None\<rparr>"
    by (simp add: homeCrumb_def)
qed

theorem getItemsForPath_fallback_witness:
  "pathFails exampleTree [''f1'', ''p1''] \<and>
   getItemsForPath (Some exampleTree) [''f1'', ''p1''] =
     \<lparr>items = exampleTree,
      breadcrumbs = [\<lparr>crumbId = ''root'', crumbName = ''Home''\<rparr>],
      currentFolder = None\<rparr> \<and>
   getItemsForPath (Some exampleTree) [''bogus-id''] =
     \<lparr>items = exampleTree,
      breadcrumbs = [\<lparr>crumbId = ''root'', crumbName = ''Home''\<rparr>],
      currentFolder = None\<rparr>"
  using getItemsForPath_fallback [of exampleTree "[''f1'', ''p1'']"]
  by (simp add: example_defs notDeleted_def)

section \<open>Login\<close>

text \<open>
  Claim C9. When some client of the table has both the username and the password, login
  resolves with the user record of such a client; it rejects exactly when no client matches
  both, and then the message is "Invalid username or password.".
\<close>

theorem login_spec:
  "((\<exists>c \<in> set cs. username (user c) = u \<and> password (user c) = p) \<longrightarrow>
      (\<exists>c \<in> set cs. login cs u p = Inr (user c) \<and> username (user c) = u
          \<and> password (user c) = p)) \<and>
   ((\<exists>e. login cs u p = Inl e) \<longleftrightarrow>
      \<not> (\<exists>c \<in> set cs. username (user c) = u \<and> password (user c) = p)) \<and>
   (\<forall>e. login cs u p = Inl e \<longrightarrow> e = ''Invalid username or password.'')"
proof -
  let ?P = "\<lambda>client. username (user client) = u \<and> password (user client) = p"
  show ?thesis
  proof (cases "find ?P cs")
    case None
    then have "\<not> (\<exists>c \<in> set cs. ?P c)" by (simp add: find_None_iff)
    with None show ?thesis by (simp add: login_def)
  next
    case (Some c)
    then have "c \<in> set cs" "?P c" by (auto simp: find_Some_iff)
    with Some show ?thesis by (auto simp: login_def)
  qed
qed

theorem login_spec_witness:
  "(\<exists>c \<in> set exampleClients. username (user c) = ''anna'' \<and> password (user c) = ''pw-anna'') \<and>
   login exampleClients ''anna'' ''pw-anna'' = Inr (user (exampleClients ! 1)) \<and>
   login exampleClients ''anna'' ''pw-ben'' = Inl ''Invalid username or password.''"
  using login_spec [of exampleClients "''anna''" "''pw-anna''"]
  by (simp add: exampleClients_def login_def)

section \<open>File sizes\<close>

lemmas pf_defs = parseFloat_def isDigit_def isWhiteSpace_def digitsValue_def scale10_def

lemma split_nonempty: "split sep s \<noteq> []"
  by (induction s) (auto split: list.splits)

lemma split_no_sep: "sep \<notin> set s \<Longrightarrow> split sep s = [s]"
  by (induction s) auto

lemma split_first: "sep \<notin> set n \<Longrightarrow> split sep (n @ sep # r) = n # split sep r"
  by (induction n) auto

lemma split_hd: "hd (split sep r) = takeWhile (\<lambda>c. c \<noteq> sep) r"
  using split_nonempty [of sep]
  by (induction r) (auto split: list.splits)

lemma times_one: "v \<noteq> NaN \<Longrightarrow> times_num v (Num 1) = v"
  by (cases v) auto

lemma times_assoc_pos:
  "0 < a \<Longrightarrow> 0 < b \<Longrightarrow> times_num (times_num v (Num a)) (Num b) = times_num v (Num (a * b))"
  by (cases v) (auto simp: zero_less_mult_iff)

lemma parseFileSize_no_unit:
  "CHR '' '' \<notin> set s \<Longrightarrow> parseFileSize s = orZero (parseFloat s)"
proof (cases "s = []")
  case True
  then show ?thesis by (simp add: parseFileSize_def parseFloat_def)
next
  case False
  assume "CHR '' '' \<notin> set s"
  with False show ?thesis by (simp add: parseFileSize_def split_no_sep)
qed

lemma parseFileSize_unit:
  assumes "CHR '' '' \<notin> set n"
  shows "parseFileSize (n @ CHR '' '' # r) =
     (if parseFloat n = NaN then Num 0
      else times_num (parseFloat n)
             (Num (1024 ^ unitExponent (toUpperCase (takeWhile (\<lambda>c. c \<noteq> CHR '' '') r)))))"
proof -
  obtain u us where sp: "split CHR '' '' r = u # us"
    using split_nonempty [of "CHR '' ''" r] by (cases "split CHR '' '' r") auto
  then have u: "u = takeWhile (\<lambda>c. c \<noteq> CHR '' '') r"
    using split_hd [of "CHR '' ''" r] by simp
  have parts: "split CHR '' '' (n @ CHR '' '' # r) = n # u # us"
    using assms sp by (simp add: split_first)
  show ?thesis
    unfolding parseFileSize_def parts u [symmetric]
    by (simp add: unitExponent_def times_one times_assoc_pos Let_def)
qed

text \<open>
  Claim C8. parseFileSize reads a number followed, after a space, by a unit: the number is
  multiplied by 1024 to the power the unit stands for (KB 1, MB 2, GB 3, TB 4), the unit
  being compared in upper case; without a unit, or with a unit that is none of these, the
  result is the number as it is, and when the number cannot be read the result is 0. In
  particular "4.2 MB" gives 4.2 * 1024 * 1024, the empty string 0 and "900 B" 900.
\<close>

theorem parseFileSize_spec:
  "parseFileSize ''4.2 MB'' = Num (42 / 10 * 1024 * 1024) \<and>
   parseFileSize [] = Num 0 \<and>
   parseFileSize ''900 B'' = Num 900 \<and>
   (\<forall>s. CHR '' '' \<notin> set s \<longrightarrow> parseFileSize s = orZero (parseFloat s)) \<and>
   (\<forall>n r. CHR '' '' \<notin> set n \<longrightarrow>
      parseFileSize (n @ CHR '' '' # r) =
        (if parseFloat n = NaN then Num 0
         else times_num (parseFloat n)
                (Num (1024 ^ unitExponent (toUpperCase (takeWhile (\<lambda>c. c \<noteq> CHR '' '') r))))))"
proof -
  have "parseFileSize ''4.2 MB'' = Num (42 / 10 * 1024 * 1024)"
    by (simp add: parseFileSize_def pf_defs toUpperCase_def upperChar_def)
  moreover have "parseFileSize [] = Num 0" by (simp add: parseFileSize_def)
  moreover have "parseFileSize ''900 B'' = Num 900"
    by (simp add: parseFileSize_def pf_defs toUpperCase_def upperChar_def)
  ultimately show ?thesis
    using parseFileSize_no_unit parseFileSize_unit by blast
qed

lemma ex_floats:
  "parseFloat ''2048'' = Num 2048" "parseFloat ''1.5'' = Num (15 / 10)"
  "parseFloat ''3'' = Num 3" "parseFloat ''7'' = Num 7" "parseFloat ''big'' = NaN"
  "parseFloat ''12abc'' = Num 12" "parseFloat ''abc'' = NaN"
  by (simp_all add: pf_defs)

lemma ex_units:
  "toUpperCase ''gb'' = ''GB''" "toUpperCase ''kB'' = ''KB''"
  "toUpperCase ''pages'' = ''PAGES''" "toUpperCase ''MB'' = ''MB''"
  by (simp_all add: toUpperCase_def upperChar_def)

theorem parseFileSize_spec_witness:
  "CHR '' '' \<notin> set ''2048'' \<and> parseFileSize ''2048'' = Num 2048 \<and>
   CHR '' '' \<notin> set ''1.5'' \<and> parseFileSize (''1.5'' @ CHR '' '' # ''gb'') = Num (15 / 10 * 1024 ^ 3) \<and>
   parseFileSize (''3'' @ CHR '' '' # ''kB extra'') = Num (3 * 1024) \<and>
   parseFileSize (''7'' @ CHR '' '' # ''pages'') = Num 7 \<and>
   parseFileSize (''big'' @ CHR '' '' # ''MB'') = Num 0 \<and>
   parseFileSize ''12abc'' = Num 12 \<and>
   parseFileSize ''abc'' = Num 0"
proof -
  have u: "CHR '' '' \<notin> set n \<Longrightarrow>
      parseFileSize (n @ CHR '' '' # r) =
        (if parseFloat n = NaN then Num 0
         else times_num (parseFloat n)
                (Num (1024 ^ unitExponent (toUpperCase (takeWhile (\<lambda>c. c \<noteq> CHR '' '') r)))))"
    for n r
    using parseFileSize_spec by blast
  have w: "CHR '' '' \<notin> set s \<Longrightarrow> parseFileSize s = orZero (parseFloat s)" for s
    using parseFileSize_spec by blast
  show ?thesis
    using u [of "''1.5''" "''gb''"] u [of "''3''" "''kB extra''"] u [of "''7''" "''pages''"]
      u [of "''big''" "''MB''"] w [of "''2048''"] w [of "''12abc''"] w [of "''abc''"]
    by (simp add: ex_floats ex_units unitExponent_def)
qed

section \<open>The sort stage\<close>

lemma set_insertBy: "set (insertBy cmp x ys) = insert x (set ys)"
  by (induction ys) auto

lemma insertBy_sorted:
  assumes c1: "\<And>a b. isFolder a \<Longrightarrow> \<not> isFolder b \<Longrightarrow> \<not> positive (cmp a b)"
    and c2: "\<And>a b. \<not> isFolder a \<Longrightarrow> isFolder b \<Longrightarrow> positive (cmp a b)"
    and r1: "\<And>a b. isFolder a \<Longrightarrow> isFolder b \<Longrightarrow> positive (cmp a b) \<Longrightarrow> R b a"
    and r2: "\<And>a b. isFolder a \<Longrightarrow> isFolder b \<Longrightarrow> \<not> positive (cmp a b) \<Longrightarrow> R a b"
    and tr: "\<And>a b c. R a b \<Longrightarrow> R b c \<Longrightarrow> R a c"
    and s: "sorted_wrt (\<lambda>a b. isFolder b \<longrightarrow> isFolder a \<and> R a b) ys"
  shows "sorted_wrt (\<lambda>a b. isFolder b \<longrightarrow> isFolder a \<and> R a b) (insertBy cmp x ys)"
  using s
proof (induction ys)
  case Nil
  then show ?case by simp
next
  case (Cons y ys)
  show ?case
  proof (cases "positive (cmp x y)")
    case True
    have "isFolder x \<longrightarrow> isFolder y \<and> R y x"
      using True c1 r1 by blast
    with Cons True show ?thesis by (auto simp: set_insertBy)
  next
    case False
    have xy: "isFolder y \<longrightarrow> isFolder x \<and> R x y"
      using False c2 r2 by blast
    have "\<forall>z \<in> set ys. isFolder z \<longrightarrow> isFolder x \<and> R x z"
    proof (intro ballI impI)
      fix z assume z: "z \<in> set ys" "isFolder z"
      with Cons.prems have "isFolder y \<and> R y z" by auto
      with xy tr show "isFolder x \<and> R x z" by blast
    qed
    with Cons.prems False xy show ?thesis by auto
  qed
qed

lemma sortBy_sorted:
  assumes c1: "\<And>a b. isFolder a \<Longrightarrow> \<not> isFolder b \<Longrightarrow> \<not> positive (cmp a b)"
    and c2: "\<And>a b. \<not> isFolder a \<Longrightarrow> isFolder b \<Longrightarrow> positive (cmp a b)"
    and r1: "\<And>a b. isFolder a \<Longrightarrow> isFolder b \<Longrightarrow> positive (cmp a b) \<Longrightarrow> R b a"
    and r2: "\<And>a b. isFolder a \<Longrightarrow> isFolder b \<Longrightarrow> \<not> positive (cmp a b) \<Longrightarrow> R a b"
    and tr: "\<And>a b c. R a b \<Longrightarrow> R b c \<Longrightarrow> R a c"
  shows "sorted_wrt (\<lambda>a b. isFolder b \<longrightarrow> isFolder a \<and> R a b) (sortBy cmp xs)"
proof (induction xs)
  case Nil
  then show ?case by (simp add: sortBy_def)
next
  case (Cons x xs)
  have "sortBy cmp (x # xs) = insertBy cmp x (sortBy cmp xs)" by (simp add: sortBy_def)
  with Cons insertBy_sorted [of cmp R "sortBy cmp xs" x, OF c1 c2 r1 r2 tr] show ?case
    by simp
qed

lemma mset_insertBy: "mset (insertBy cmp x ys) = add_mset x (mset ys)"
  by (induction ys) auto

lemma mset_sortBy: "mset (sortBy cmp xs) = mset xs"
  by (induction xs) (simp_all add: sortBy_def mset_insertBy)

lemma sortStage_mset: "mset (sortStage lc getTime sortOption xs) = mset xs"
  by (cases sortOption) (simp_all add: sortStage_def mset_sortBy)

lemma sortStage_folders_first:
  "sorted_wrt (\<lambda>a b. isFolder b \<longrightarrow> isFolder a) (sortStage lc getTime sortOption xs)"
proof -
  have "sorted_wrt (\<lambda>a b. isFolder b \<longrightarrow> isFolder a \<and> True) (sortStage lc getTime sortOption xs)"
    unfolding sortStage_def
    by (cases sortOption; simp only: SortOption.case;
        rule sortBy_sorted [where R = "\<lambda>a b. True"]; simp)
  then show ?thesis by simp
qed

lemma folders_first_index:
  assumes "sorted_wrt (\<lambda>a b. isFolder b \<longrightarrow> isFolder a) out"
    and "i < length out" "j < length out" "isFolder (out ! i)" "\<not> isFolder (out ! j)"
  shows "i < j"
proof (rule ccontr)
  assume "\<not> i < j"
  with assms(4,5) have "j < i" by (cases "i = j") auto
  with assms(1,2) have "isFolder (out ! i) \<longrightarrow> isFolder (out ! j)"
    by (simp add: sorted_wrt_iff_nth_less)
  with assms(4,5) show False by simp
qed

text \<open>
  Claim C6. For every listing and every one of the six sort options, in the output of the
  sort stage, and so in the output of the whole pipeline, every folder stands before every
  item that is not a folder.
\<close>

theorem folders_before_files:
  "(\<forall>i j. i < length (sortStage lc getTime sortOption xs) \<and>
          j < length (sortStage lc getTime sortOption xs) \<and>
          isFolder (sortStage lc getTime sortOption xs ! i) \<and>
          \<not> isFolder (sortStage lc getTime sortOption xs ! j) \<longrightarrow> i < j) \<and>
   (\<forall>i j. i < length (processedItems lc getTime uid specialView filterOption searchQuery
                      sortOption currentItems allMediaItems) \<and>
          j < length (processedItems lc getTime uid specialView filterOption searchQuery
                      sortOption currentItems allMediaItems) \<and>
          isFolder (processedItems lc getTime uid specialView filterOption searchQuery
                      sortOption currentItems allMediaItems ! i) \<and>
          \<not> isFolder (processedItems lc getTime uid specialView filterOption searchQuery
                      sortOption currentItems allMediaItems ! j) \<longrightarrow> i < j)"
  unfolding processedItems_def
  using folders_first_index [OF sortStage_folders_first] by blast

lemma sortStage_folder_names:
  assumes anti: "\<forall>s t. positive (lc s t) \<longrightarrow> \<not> positive (lc t s)"
    and trans: "\<forall>s t u. \<not> positive (lc s t) \<and> \<not> positive (lc t u) \<longrightarrow> \<not> positive (lc s u)"
  shows "sortOption \<noteq> NameDesc \<Longrightarrow>
           sorted_wrt (\<lambda>a b. isFolder b \<longrightarrow> isFolder a \<and> nameAscending lc a b)
             (sortStage lc getTime sortOption xs)"
    and "sortOption = NameDesc \<Longrightarrow>
           sorted_wrt (\<lambda>a b. isFolder b \<longrightarrow> isFolder a \<and> nameAscending lc b a)
             (sortStage lc getTime sortOption xs)"
proof -
  have fn: "isFolder a \<Longrightarrow> displayName a = name a" for a by (cases a) auto
  show "sortOption \<noteq> NameDesc \<Longrightarrow>
           sorted_wrt (\<lambda>a b. isFolder b \<longrightarrow> isFolder a \<and> nameAscending lc a b)
             (sortStage lc getTime sortOption xs)"
    unfolding sortStage_def nameAscending_def
    by (cases sortOption; simp only: SortOption.case;
        (rule sortBy_sorted [where R = "\<lambda>a b. \<not> positive (lc (name a) (name b))"])?;
        (simp add: fn)?; (use anti trans in blast)?)
  show "sortOption = NameDesc \<Longrightarrow>
           sorted_wrt (\<lambda>a b. isFolder b \<longrightarrow> isFolder a \<and> nameAscending lc b a)
             (sortStage lc getTime sortOption xs)"
    unfolding sortStage_def nameAscending_def
    by (simp only: SortOption.case;
        rule sortBy_sorted [where R = "\<lambda>a b. \<not> positive (lc (name b) (name a))"];
        (simp add: fn)?; (use anti trans in blast)?)
qed

lemma sorted_folders:
  assumes "sorted_wrt (\<lambda>a b. isFolder b \<longrightarrow> isFolder a \<and> R a b) out"
  shows "sorted_wrt R (filter isFolder out)"
proof -
  have "sorted_wrt (\<lambda>a b. isFolder b \<longrightarrow> isFolder a \<and> R a b) (filter isFolder out)"
    using assms by (rule sorted_wrt_filter)
  then show ?thesis
    by (rule sorted_wrt_mono_rel [rotated]) auto
qed

lemma codeUnitCompare_anti:
  "positive (codeUnitCompare s t) \<Longrightarrow> \<not> positive (codeUnitCompare t s)"
  by (induction s t rule: codeUnitCompare.induct) (auto split: if_splits)

lemma codeUnitCompare_trans:
  "\<not> positive (codeUnitCompare s t) \<Longrightarrow> \<not> positive (codeUnitCompare t u) \<Longrightarrow>
   \<not> positive (codeUnitCompare s u)"
proof (induction s arbitrary: t u)
  case Nil
  then show ?case by (cases u) auto
next
  case (Cons c cs)
  then show ?case
    by (cases t; cases u) (auto split: if_splits)
qed

text \<open>
  Claim C2, as amended. Let the collation be consistent: of two names it never puts each
  after the other, and not being after is transitive. Then for every listing the folders
  in the sorted output are, among themselves, in ascending order of name under the
  options name-asc, date-asc, date-desc, size-asc and size-desc, and in descending order
  of name under name-desc.
\<close>

theorem folders_sorted_by_name:
  assumes "\<forall>s t. positive (lc s t) \<longrightarrow> \<not> positive (lc t s)"
    and "\<forall>s t u. \<not> positive (lc s t) \<and> \<not> positive (lc t u) \<longrightarrow> \<not> positive (lc s u)"
  shows "(sortOption \<noteq> NameDesc \<longrightarrow>
            sorted_wrt (nameAscending lc) (filter isFolder (sortStage lc getTime sortOption xs)) \<and>
            sorted_wrt (nameAscending lc)
              (filter isFolder (processedItems lc getTime uid specialView filterOption
                 searchQuery sortOption currentItems allMediaItems))) \<and>
         (sortOption = NameDesc \<longrightarrow>
            sorted_wrt (\<lambda>a b. nameAscending lc b a)
              (filter isFolder (sortStage lc getTime sortOption xs)) \<and>
            sorted_wrt (\<lambda>a b. nameAscending lc b a)
              (filter isFolder (processedItems lc getTime uid specialView filterOption
                 searchQuery sortOption currentItems allMediaItems)))"
  unfolding processedItems_def
  using sorted_folders [OF sortStage_folder_names(1) [OF assms]]
    sorted_folders [OF sortStage_folder_names(2) [OF assms]]
  by blast

lemma example_sort_defs:
  "parseFileSize ''4.2 MB'' = Num (42 / 10 * 1024 * 1024)"
  "parseFileSize ''900 B'' = Num 900"
  "parseFileSize ''1.5 GB'' = Num (15 / 10 * 1024 * 1024 * 1024)"
  by (simp_all add: parseFileSize_def pf_defs toUpperCase_def upperChar_def)

lemma ex_fields:
  "fileSize photoP1 = ''4.2 MB''" "fileSize photoP2 = ''900 B''" "fileSize videoV1 = ''1.5 GB''"
  "title photoP1 = ''Ceremony''" "title photoP2 = ''First dance''" "title videoV1 = ''Highlights''"
  by (simp_all add: photoP1_def photoP2_def videoV1_def mediaItem_def)

lemmas ex_folders = weddingFolder_def receptionFolder_def

lemma mixed_sorted:
  "sortStage codeUnitCompare exampleTime SizeDesc mixedListing =
     [receptionFolder, weddingFolder, Media videoV1, Media photoP1, Media photoP2]"
  by (simp add: sortStage_def sortBy_def mixedListing_def ex_folders ex_fields example_sort_defs)

theorem folders_before_files_witness:
  "(1::nat) < length (sortStage codeUnitCompare exampleTime SizeDesc mixedListing) \<and>
   (2::nat) < length (sortStage codeUnitCompare exampleTime SizeDesc mixedListing) \<and>
   isFolder (sortStage codeUnitCompare exampleTime SizeDesc mixedListing ! 1) \<and>
   \<not> isFolder (sortStage codeUnitCompare exampleTime SizeDesc mixedListing ! 2) \<and>
   (1::nat) < 2 \<and>
   sortStage codeUnitCompare exampleTime SizeDesc mixedListing =
     [receptionFolder, weddingFolder, Media videoV1, Media photoP1, Media photoP2]"
proof -
  let ?out = "sortStage codeUnitCompare exampleTime SizeDesc mixedListing"
  have "(1::nat) < length ?out \<and> (2::nat) < length ?out \<and> isFolder (?out ! 1) \<and>
        \<not> isFolder (?out ! 2) \<longrightarrow> (1::nat) < 2"
    using folders_before_files [of codeUnitCompare exampleTime SizeDesc mixedListing]
    by blast
  then show ?thesis by (simp add: mixed_sorted ex_folders)
qed

theorem folders_sorted_by_name_witness:
  "SizeDesc \<noteq> NameDesc \<and>
   sorted_wrt (nameAscending codeUnitCompare)
     (filter isFolder (sortStage codeUnitCompare exampleTime SizeDesc mixedListing)) \<and>
   filter isFolder (sortStage codeUnitCompare exampleTime SizeDesc mixedListing) =
     [receptionFolder, weddingFolder] \<and>
   sorted_wrt (\<lambda>a b. nameAscending codeUnitCompare b a)
     (filter isFolder (sortStage codeUnitCompare exampleTime NameDesc mixedListing)) \<and>
   filter isFolder (sortStage codeUnitCompare exampleTime NameDesc mixedListing) =
     [weddingFolder, receptionFolder]"
proof -
  have a: "\<forall>s t. positive (codeUnitCompare s t) \<longrightarrow> \<not> positive (codeUnitCompare t s)"
    using codeUnitCompare_anti by blast
  have t: "\<forall>s t u. \<not> positive (codeUnitCompare s t) \<and> \<not> positive (codeUnitCompare t u) \<longrightarrow>
      \<not> positive (codeUnitCompare s u)"
    using codeUnitCompare_trans by blast
  have d: "filter isFolder (sortStage codeUnitCompare exampleTime NameDesc mixedListing) =
     [weddingFolder, receptionFolder]"
    by (simp add: sortStage_def sortBy_def mixedListing_def ex_folders ex_fields)
  have "sorted_wrt (nameAscending codeUnitCompare)
     (filter isFolder (sortStage codeUnitCompare exampleTime SizeDesc mixedListing))"
    using folders_sorted_by_name [OF a t, of SizeDesc exampleTime mixedListing] by simp
  moreover have "sorted_wrt (\<lambda>a b. nameAscending codeUnitCompare b a)
     (filter isFolder (sortStage codeUnitCompare exampleTime NameDesc mixedListing))"
    using folders_sorted_by_name [OF a t, of NameDesc exampleTime mixedListing] by simp
  moreover have "filter isFolder (sortStage codeUnitCompare exampleTime SizeDesc mixedListing) =
     [receptionFolder, weddingFolder]"
    by (simp add: mixed_sorted ex_folders)
  ultimately show ?thesis using d by simp
qed

text \<open>
  Claim C2 as stated fails: under name-desc the folders A and B come out as B, A.
\<close>

theorem folders_name_desc_counterexample:
  "processedItems codeUnitCompare exampleTime ''u1'' ViewNone FilterAll [] NameDesc
     [albumA, albumB] [albumA, albumB] = [albumB, albumA] \<and>
   \<not> sorted_wrt (nameAscending codeUnitCompare)
       (filter isFolder
          (processedItems codeUnitCompare exampleTime ''u1'' ViewNone FilterAll [] NameDesc
             [albumA, albumB] [albumA, albumB]))"
  by (simp add: processedItems_def sortStage_def sortBy_def sourceItems_def keepItem_def
      isDateSort_def searchedItems_def trim_def nameAscending_def albumA_def albumB_def)

section \<open>Mutating one media item\<close>

lemma mutate_flatten:
  "flatten (findAndMutateMediaItem T i f) =
     map (\<lambda>x. case x of
            Media m \<Rightarrow> if id' m = i then Media (f m) else Media m
          | Folder j n ch d \<Rightarrow> Folder j n (findAndMutateMediaItem ch i f) d) (flatten T)"
  by (induction T rule: flatten.induct) simp_all

lemma mutate_absent:
  "i \<notin> set (map itemId (flatten T)) \<Longrightarrow> findAndMutateMediaItem T i f = T"
  by (induction T rule: flatten.induct) auto

lemma mutate_refines:
  "\<forall>x \<in> set (flatten T). isFolder x \<longrightarrow> itemId x \<noteq> i \<Longrightarrow>
   findAndMutateMediaItem T i f = mutateById_spec T i (onMedia f)"
  by (induction T rule: flatten.induct) auto

lemma count_list_map_filter:
  "count_list (map g xs) i = length (filter (\<lambda>y. g y = i) xs)"
  by (induction xs) auto

lemma once_media_no_folder:
  assumes "count_list (map itemId (flatten T)) i = 1"
    and "Media m \<in> set (flatten T)" and "id' m = i"
  shows "\<forall>x \<in> set (flatten T). isFolder x \<longrightarrow> itemId x \<noteq> i"
proof (intro ballI impI notI)
  fix x assume x: "x \<in> set (flatten T)" "isFolder x" "itemId x = i"
  let ?F = "filter (\<lambda>y. itemId y = i) (flatten T)"
  have "x \<noteq> Media m" using x(2) by auto
  moreover have "x \<in> set ?F" "Media m \<in> set ?F" using x assms by auto
  ultimately have "{x, Media m} \<subseteq> set ?F" "card {x, Media m} = 2" by auto
  then have "2 \<le> card (set ?F)" by (metis card_mono List.finite_set)
  also have "\<dots> \<le> length ?F" by (rule card_length)
  also have "length ?F = count_list (map itemId (flatten T)) i"
    by (simp add: count_list_map_filter)
  finally show False using assms(1) by simp
qed

text \<open>
  Claim C1, as amended. For every tree, every id that occurs exactly once in the tree and
  belongs to a media item, and every transform of media items, findAndMutateMediaItem
  returns the tree in which that item is replaced by the transform applied to it: the
  result is the one the specification's mutateById gives, the flattened result has the
  length of the flattened tree, and position by position a media item with another id is
  the same item, and a folder keeps its id, name and flag, its children being rewritten in
  the same way and being the same children when the id does not occur among them.
\<close>

theorem findAndMutateMediaItem_frame:
  assumes "count_list (map itemId (flatten T)) i = 1"
    and "Media m \<in> set (flatten T)" and "id' m = i"
  shows "findAndMutateMediaItem T i f = mutateById_spec T i (onMedia f) \<and>
         length (flatten (findAndMutateMediaItem T i f)) = length (flatten T) \<and>
         (\<forall>k < length (flatten T).
            (\<forall>m'. flatten T ! k = Media m' \<longrightarrow>
               flatten (findAndMutateMediaItem T i f) ! k =
                 (if id' m' = i then Media (f m') else Media m')) \<and>
            (\<forall>j n ch d. flatten T ! k = Folder j n ch d \<longrightarrow>
               flatten (findAndMutateMediaItem T i f) ! k =
                 Folder j n (findAndMutateMediaItem ch i f) d \<and>
               (i \<notin> set (map itemId (flatten ch)) \<longrightarrow>
                  flatten (findAndMutateMediaItem T i f) ! k = Folder j n ch d)))"
proof -
  have "findAndMutateMediaItem T i f = mutateById_spec T i (onMedia f)"
    using once_media_no_folder [OF assms] by (rule mutate_refines)
  moreover have "length (flatten (findAndMutateMediaItem T i f)) = length (flatten T)"
    by (simp add: mutate_flatten)
  moreover have "\<forall>k < length (flatten T).
            (\<forall>m'. flatten T ! k = Media m' \<longrightarrow>
               flatten (findAndMutateMediaItem T i f) ! k =
                 (if id' m' = i then Media (f m') else Media m')) \<and>
            (\<forall>j n ch d. flatten T ! k = Folder j n ch d \<longrightarrow>
               flatten (findAndMutateMediaItem T i f) ! k =
                 Folder j n (findAndMutateMediaItem ch i f) d \<and>
               (i \<notin> set (map itemId (flatten ch)) \<longrightarrow>
                  flatten (findAndMutateMediaItem T i f) ! k = Folder j n ch d))"
    by (simp add: mutate_flatten mutate_absent)
  ultimately show ?thesis by blast
qed

lemma ex_ids:
  "id' photoP1 = ''p1''" "id' photoP2 = ''p2''" "id' videoV1 = ''v1''"
  by (simp_all add: photoP1_def photoP2_def videoV1_def mediaItem_def)

lemmas ex_tree = exampleTree_def weddingFolder_def receptionFolder_def

theorem findAndMutateMediaItem_frame_witness:
  "count_list (map itemId (flatten exampleTree)) ''p2'' = 1 \<and>
   Media photoP2 \<in> set (flatten exampleTree) \<and> id' photoP2 = ''p2'' \<and>
   findAndMutateMediaItem exampleTree ''p2'' markMediaDeleted =
     mutateById_spec exampleTree ''p2'' (onMedia markMediaDeleted) \<and>
   findAndMutateMediaItem exampleTree ''p2'' markMediaDeleted =
     [Folder ''f1'' ''Wedding''
        [Media photoP1, Folder ''f2'' ''Reception'' [Media (markMediaDeleted photoP2)] None] None,
      Media videoV1]"
proof -
  have h1: "count_list (map itemId (flatten exampleTree)) ''p2'' = 1"
    by (simp add: ex_tree ex_ids)
  have h2: "Media photoP2 \<in> set (flatten exampleTree)" by (simp add: ex_tree)
  have h3: "id' photoP2 = ''p2''" by (simp add: ex_ids)
  have "findAndMutateMediaItem exampleTree ''p2'' markMediaDeleted =
     mutateById_spec exampleTree ''p2'' (onMedia markMediaDeleted)"
    using findAndMutateMediaItem_frame [OF h1 h2 h3, of markMediaDeleted] by blast
  moreover have "findAndMutateMediaItem exampleTree ''p2'' markMediaDeleted =
     [Folder ''f1'' ''Wedding''
        [Media photoP1, Folder ''f2'' ''Reception'' [Media (markMediaDeleted photoP2)] None] None,
      Media videoV1]"
    by (simp add: ex_tree ex_ids)
  ultimately show ?thesis using h1 h2 h3 by blast
qed

text \<open>
  Claim C1 as stated fails for the id of a folder: the folder f2 occurs once in the
  example tree, and marking deleted the node with id f2 leaves the tree as it was, where
  the specification's mutateById marks the folder.
\<close>

theorem mutate_folder_id_counterexample:
  "count_list (map itemId (flatten exampleTree)) ''f2'' = 1 \<and>
   findAndMutateMediaItem exampleTree ''f2'' markMediaDeleted = exampleTree \<and>
   mutateById_spec exampleTree ''f2'' markDeleted =
     [Folder ''f1'' ''Wedding''
        [Media photoP1, Folder ''f2'' ''Reception'' [Media photoP2] (Some True)] None,
      Media videoV1] \<and>
   findAndMutateMediaItem exampleTree ''f2'' markMediaDeleted \<noteq>
     mutateById_spec exampleTree ''f2'' markDeleted"
  by (simp add: ex_tree ex_ids)

section \<open>Soft delete and restore\<close>

text \<open>
  Claim C5 at the input where the code departs from it: the folder f1 and the photo p1
  inside it are both deleted and both selected; restoring clears the flag of the folder
  and leaves the photo deleted.
\<close>

theorem restore_skips_nested_selection:
  "isDeleted (markMediaDeleted photoP1) = Some True \<and>
   id' (markMediaDeleted photoP1) = ''p1'' \<and>
   modifyRecursively {''f1'', ''p1''} False
     [Folder ''f1'' ''Wedding'' [Media (markMediaDeleted photoP1)] (Some True)] =
     [Folder ''f1'' ''Wedding'' [Media (markMediaDeleted photoP1)] (Some False)]"
  by (simp add: markMediaDeleted_def ex_ids)

section \<open>Moving items\<close>

lemma findAndRemove_eq:
  "findAndRemove ids xs acc = (keptOf ids xs, acc @ movedOf ids xs)"
  by (induction ids xs arbitrary: acc rule: keptOf.induct) simp_all

lemma kept_clean: "x \<in> set (flatten (keptOf ids xs)) \<Longrightarrow> itemId x \<notin> ids"
  by (induction ids xs rule: keptOf.induct) (auto split: if_splits)

lemma moved_selected: "x \<in> set (movedOf ids xs) \<Longrightarrow> itemId x \<in> ids"
  by (induction ids xs rule: movedOf.induct) (auto split: if_splits)





lemma moved_subseq: "subseq (movedOf ids xs) (flatten xs)"
proof (induction ids xs rule: movedOf.induct)
  case (1 ids)
  then show ?case by simp
next
  case (2 ids m rest)
  then show ?case by auto
next
  case (3 ids i n ch d rest)
  show ?case
  proof (cases "i \<in> ids")
    case True
    with 3 have "subseq (movedOf ids rest) (flatten ch @ flatten rest)"
      by (simp add: list_emb_append2)
    with True show ?thesis by simp
  next
    case False
    with 3 have "subseq (movedOf ids ch @ movedOf ids rest) (flatten ch @ flatten rest)"
      by (simp add: list_emb_append_mono)
    then have "subseq (movedOf ids ch @ movedOf ids rest)
        (Folder i n ch d # flatten ch @ flatten rest)"
      by (rule list_emb_Cons)
    with False show ?thesis by simp
  qed
qed






lemma findAndAdd_Nil: "dest \<noteq> ''root'' \<Longrightarrow> findAndAdd dest M [] = []"
  by (simp add: findAndAdd.simps)

lemma findAndAdd_Media:
  "dest \<noteq> ''root'' \<Longrightarrow> findAndAdd dest M (Media m # rest) = Media m # findAndAdd dest M rest"
  by (subst findAndAdd.simps, subst (2) findAndAdd.simps) simp

lemma findAndAdd_Folder:
  "dest \<noteq> ''root'' \<Longrightarrow>
   findAndAdd dest M (Folder i n ch d # rest) =
     (if i = dest then Folder i n (ch @ M) d else Folder i n (findAndAdd dest M ch) d)
       # findAndAdd dest M rest"
  by (subst findAndAdd.simps, subst (3) findAndAdd.simps) simp

lemmas findAndAdd_eqs = findAndAdd_Nil findAndAdd_Media findAndAdd_Folder

lemma findAndAdd_no_destination:
  "dest \<noteq> ''root'' \<Longrightarrow> \<forall>x \<in> set (flatten xs). isFolder x \<longrightarrow> itemId x \<noteq> dest \<Longrightarrow>
   findAndAdd dest M xs = xs"
  by (induction xs rule: flatten.induct) (auto simp: findAndAdd_eqs)






lemma moveItems_eq: "moveItems T ids dest = findAndAdd dest (movedOf ids T) (keptOf ids T)"
  by (simp add: moveItems_def findAndRemove_eq)





lemma top_in_flatten: "set xs \<subseteq> set (flatten xs)"
  by (induction xs rule: flatten.induct) auto








text \<open>
  Claim C10. When the destination is not \<^verbatim>\<open>'root'\<close> and no folder of the tree that is
  left after the removal has its id, the move returns that tree: no node of the result
  has a selected id, and every collected item, a selected node of the original tree, is
  absent from the result. The handler returns this tree as the new gallery content.
\<close>

theorem move_to_missing_destination:
  assumes "dest \<noteq> ''root''"
    and "\<forall>x \<in> set (flatten (fst (findAndRemove ids T []))). isFolder x \<longrightarrow> itemId x \<noteq> dest"
  shows "moveItems T ids dest = fst (findAndRemove ids T []) \<and>
         handleConfirmMove (Some T) ids (Some dest) = Some (fst (findAndRemove ids T [])) \<and>
         (\<forall>x \<in> set (flatten (moveItems T ids dest)). itemId x \<notin> ids) \<and>
         (\<forall>x \<in> set (snd (findAndRemove ids T [])).
            itemId x \<in> ids \<and> x \<in> set (flatten T) \<and> x \<notin> set (flatten (moveItems T ids dest)))"
proof -
  have eq: "moveItems T ids dest = keptOf ids T"
    using assms by (simp add: moveItems_eq findAndRemove_eq findAndAdd_no_destination)
  have clean: "\<forall>x \<in> set (flatten (keptOf ids T)). itemId x \<notin> ids"
    using kept_clean by blast
  have "\<forall>x \<in> set (movedOf ids T). itemId x \<in> ids \<and> x \<in> set (flatten T)"
    using moved_selected moved_subseq [of ids T] by (auto dest: list_emb_set)
  with eq clean show ?thesis
    by (auto simp: findAndRemove_eq)
qed

lemma ex_remove:
  "findAndRemove {''p1'', ''p2''} exampleTree [] =
     ([Folder ''f1'' ''Wedding'' [Folder ''f2'' ''Reception'' [] None] None, Media videoV1],
      [Media photoP1, Media photoP2])"
  "findAndRemove {''p1''} exampleTree [] =
     ([Folder ''f1'' ''Wedding'' [Folder ''f2'' ''Reception'' [Media photoP2] None] None,
       Media videoV1],
      [Media photoP1])"
  "findAndRemove {''f2''} exampleTree [] =
     ([Folder ''f1'' ''Wedding'' [Media photoP1] None, Media videoV1],
      [Folder ''f2'' ''Reception'' [Media photoP2] None])"
  by (simp_all add: ex_tree ex_ids)


theorem move_to_missing_destination_witness:
  "''gone'' \<noteq> ''root'' \<and>
   moveItems exampleTree {''p1''} ''gone'' =
     [Folder ''f1'' ''Wedding'' [Folder ''f2'' ''Reception'' [Media photoP2] None] None,
      Media videoV1] \<and>
   Media photoP1 \<in> set (snd (findAndRemove {''p1''} exampleTree [])) \<and>
   Media photoP1 \<notin> set (flatten (moveItems exampleTree {''p1''} ''gone'')) \<and>
   ''f2'' \<noteq> ''root'' \<and>
   handleConfirmMove (Some exampleTree) {''f2''} (Some ''f2'') =
     Some [Folder ''f1'' ''Wedding'' [Media photoP1] None, Media videoV1]"
proof -
  have a1: "''gone'' \<noteq> ''root''" by simp
  have a2: "\<forall>x \<in> set (flatten (fst (findAndRemove {''p1''} exampleTree []))).
      isFolder x \<longrightarrow> itemId x \<noteq> ''gone''"
    by (simp add: ex_remove)
  have b1: "''f2'' \<noteq> ''root''" by simp
  have b2: "\<forall>x \<in> set (flatten (fst (findAndRemove {''f2''} exampleTree []))).
      isFolder x \<longrightarrow> itemId x \<noteq> ''f2''"
    by (simp add: ex_remove)
  have m: "Media photoP1 \<in> set (snd (findAndRemove {''p1''} exampleTree []))"
    by (simp add: ex_remove)
  from move_to_missing_destination [OF a1 a2]
  have "moveItems exampleTree {''p1''} ''gone'' = fst (findAndRemove {''p1''} exampleTree [])"
    and "Media photoP1 \<notin> set (flatten (moveItems exampleTree {''p1''} ''gone''))"
    using m by blast+
  moreover from move_to_missing_destination [OF b1 b2]
  have "handleConfirmMove (Some exampleTree) {''f2''} (Some ''f2'') =
      Some (fst (findAndRemove {''f2''} exampleTree []))"
    by blast
  ultimately show ?thesis using m by (simp add: ex_remove)
qed

end
